theory Spec2Isabelle
  imports Main "HOL-Library.Word"
begin

section \<open>The in-memory store of store.go\<close>

text \<open>
  The source holds two implementations of the same store. The first (lines 1-247 of
  store.go) uses pointer receivers, one shared pair of locks and an atomic view counter.
  The second (lines 248-411) uses value receivers, a map that \<open>NewStore\<close> never
  allocates and throwaway mutexes. Both are embedded here: the first under the source's
  names, the second under the same names with the suffix \<open>2\<close>.

  Time is an integer number of nanoseconds counted from the zero value of Go's
  \<open>time.Time\<close>, so \<open>t.IsZero()\<close> is \<open>t = 0\<close>, \<open>a.After(b)\<close> is \<open>b < a\<close> and
  \<open>a.Before(b)\<close> is \<open>a < b\<close>. Every reading of \<open>time.Now()\<close> is a parameter of
  the function that takes it. A \<open>uint64\<close> is a \<open>64 word\<close>.
\<close>

subsection \<open>First implementation: data\<close>

record Item =
  Value :: string
  ExpiresAt :: int
  Views :: "64 word"

record ItemDTO =
  dtoValue :: string
  dtoExpiresAt :: int
  dtoViews :: "64 word"

text \<open>
  \<open>data\<close> is \<open>map[string]*Item\<close>. No pointer to an item leaves the store, so the
  items are kept in the map itself and \<open>item.Views.Add(1)\<close> is an update of the map at
  that key. The two locks are left out of the record: every method of the first
  implementation unlocks what it locked before it returns or calls another method, so
  a sequential run always finds them free.
\<close>

record Store =
  data :: "string \<rightharpoonup> Item"
  lastKeys :: "string list"

definition NewStore :: Store where
  "NewStore = \<lparr>data = Map.empty, lastKeys = []\<rparr>"

subsection \<open>First implementation: the recency stack\<close>

definition push :: "Store \<Rightarrow> string \<Rightarrow> Store" where
  "push s v =
     (let ks = lastKeys s @ [v]
      in s\<lparr>lastKeys := (if length ks > 30 then drop 1 ks else ks)\<rparr>)"

definition pop :: "Store \<Rightarrow> Store" where
  "pop s =
     (if length (lastKeys s) = 0 then s
      else s\<lparr>lastKeys := take (length (lastKeys s) - 1) (lastKeys s)\<rparr>)"

definition top_key :: "Store \<Rightarrow> string" where
  "top_key s =
     (if length (lastKeys s) = 0 then ''''
      else lastKeys s ! (length (lastKeys s) - 1))"

subsection \<open>First implementation: the table\<close>

definition Set :: "Store \<Rightarrow> string \<Rightarrow> string \<Rightarrow> int \<Rightarrow> int \<Rightarrow> Store" where
  "Set s key v ttl now =
     (let expires = (if ttl > 0 then now + ttl else 0)
      in push (s\<lparr>data := (data s)(key \<mapsto> \<lparr>Value = v, ExpiresAt = expires, Views = 0\<rparr>)\<rparr>) key)"

definition RetrieveLastKey :: "Store \<Rightarrow> string \<times> Store" where
  "RetrieveLastKey s =
     (if length (lastKeys s) = 0 then ('''', s)
      else
        let k = lastKeys s ! (length (lastKeys s) - 1);
            s1 = s\<lparr>lastKeys := take (length (lastKeys s) - 1) (lastKeys s)\<rparr>
        in (k, s1\<lparr>data := (data s1)(k := None)\<rparr>))"

definition Size :: "Store \<Rightarrow> nat" where
  "Size s = card (dom (data s))"

text \<open>
  \<open>Get\<close> returns the pair of the source and the store it leaves. The test
  \<open>curValue == item\<close> compares the pointer read under the read lock with the pointer
  found under the write lock; here it compares the two items.
\<close>

definition Get :: "Store \<Rightarrow> string \<Rightarrow> int \<Rightarrow> (string \<times> bool) \<times> Store" where
  "Get s key now =
     (case data s key of
        None \<Rightarrow> (('''', False), s)
      | Some item \<Rightarrow>
          if ExpiresAt item \<noteq> 0 \<and> ExpiresAt item < now then
            (('''', False),
             (case data s key of
                Some curValue \<Rightarrow> if curValue = item then s\<lparr>data := (data s)(key := None)\<rparr> else s
              | None \<Rightarrow> s))
          else
            ((Value item, True),
             s\<lparr>data := (data s)(key \<mapsto> item\<lparr>Views := Views item + 1\<rparr>)\<rparr>))"

definition GetViews :: "Store \<Rightarrow> string \<Rightarrow> 64 word" where
  "GetViews s key = (case data s key of None \<Rightarrow> 0 | Some item \<Rightarrow> Views item)"

definition Delete :: "Store \<Rightarrow> string \<Rightarrow> Store" where
  "Delete s key = s\<lparr>data := (data s)(key := None)\<rparr>"

text \<open>
  \<open>FullList\<close> and the sweep range over the map. Go visits every key once, in an
  order it does not fix; the order is the parameter \<open>ks\<close>.
\<close>

definition FullList :: "Store \<Rightarrow> string list \<Rightarrow> (string \<rightharpoonup> ItemDTO)" where
  "FullList s ks =
     fold (\<lambda>key newData.
             case data s key of
               None \<Rightarrow> newData
             | Some val \<Rightarrow>
                 newData(key \<mapsto>
                   \<lparr>dtoValue = Value val, dtoExpiresAt = ExpiresAt val, dtoViews = Views val\<rparr>))
          ks Map.empty"

subsection \<open>First implementation: the sweeper\<close>

text \<open>One round of the loop of \<open>Cleanup\<close> after the ticker has fired, at time \<open>now\<close>.\<close>

definition expiredKeys :: "Store \<Rightarrow> int \<Rightarrow> string list \<Rightarrow> string list" where
  "expiredKeys s now ks =
     filter (\<lambda>k. case data s k of
                    None \<Rightarrow> False
                  | Some item \<Rightarrow> ExpiresAt item \<noteq> 0 \<and> ExpiresAt item < now) ks"

definition Cleanup_tick :: "Store \<Rightarrow> int \<Rightarrow> string list \<Rightarrow> Store" where
  "Cleanup_tick s now ks =
     (let expired = expiredKeys s now ks
      in if length expired = 0 then s
         else s\<lparr>data := fold (\<lambda>v m. m(v := None)) expired (data s)\<rparr>)"

text \<open>
  The loop itself selects between the context and the ticker. An event is what the
  \<open>select\<close> receives: \<open>Done\<close> ends the loop, a tick carries the clock reading and
  the order of the range.
\<close>

datatype event = Done | Tick int "string list"

fun Cleanup :: "Store \<Rightarrow> event list \<Rightarrow> Store" where
  "Cleanup s [] = s"
| "Cleanup s (Done # es) = s"
| "Cleanup s (Tick now ks # es) = Cleanup (Cleanup_tick s now ks) es"

definition Reset :: "Store \<Rightarrow> Store" where
  "Reset s = (s\<lparr>lastKeys := []\<rparr>)\<lparr>data := Map.empty\<rparr>"

subsection \<open>Runs of calls on the first implementation\<close>

text \<open>
  A caller's run is a list of calls; \<open>step\<close> gives the store after one of them. The
  methods that only read (\<open>GetViews\<close>, \<open>Size\<close>, \<open>FullList\<close>, \<open>top\<close>) leave the
  store as it is and are not listed.
\<close>

datatype call =
    CSet string string int int
  | CGet string int
  | CDelete string
  | CRetrieveLastKey
  | CReset
  | CTick int "string list"
  | Cpush string
  | Cpop

fun step :: "call \<Rightarrow> Store \<Rightarrow> Store" where
  "step (CSet key v ttl now) s = Set s key v ttl now"
| "step (CGet key now) s = snd (Get s key now)"
| "step (CDelete key) s = Delete s key"
| "step CRetrieveLastKey s = snd (RetrieveLastKey s)"
| "step CReset s = Reset s"
| "step (CTick now ks) s = Cleanup_tick s now ks"
| "step (Cpush v) s = push s v"
| "step Cpop s = pop s"

definition run :: "call list \<Rightarrow> Store \<Rightarrow> Store" where
  "run cs s = fold step cs s"

subsection \<open>Second implementation: data\<close>

text \<open>
  The second \<open>Item\<close> has the same three fields, with a plain \<open>uint64\<close> counter, and
  is the record \<open>Item\<close> again. \<open>data\<close> is \<open>map[string]Item\<close>: a Go map is a
  reference to a map object, or nil. The map objects live in a heap, because every
  method of the second implementation has a value receiver: a call copies the whole
  \<open>Store\<close>, the copy shares the map object with the caller's store, and whatever
  the method assigns to a field of its receiver is lost on return. A method therefore
  takes the receiver and the heap and returns its result and the heap; the caller's
  \<open>Store\<close> value stays what it was.

  A mutex is the flag "locked". \<open>Lock\<close> on a locked mutex never returns; that is the
  failure \<open>Deadlock\<close>. The mutexes that \<open>Set\<close> and \<open>Delete\<close> create, lock and
  unlock locally are always free and are left out, and so is the line that \<open>Size\<close>
  prints.
\<close>

datatype failure =
    NilMapWrite      \<comment> \<open>panic: assignment to entry in nil map\<close>
  | IndexOutOfRange  \<comment> \<open>panic: index out of range\<close>
  | Deadlock         \<comment> \<open>a \<open>Lock\<close> that never returns\<close>

record heap =
  cells :: "nat \<Rightarrow> (string \<rightharpoonup> Item)"
  used :: nat

record Store2 =
  mu :: bool
  data2 :: "nat option"
  stackMutex :: bool
  lastKeys2 :: "string list"

definition NewStore2 :: Store2 where
  "NewStore2 = \<lparr>mu = False, data2 = None, stackMutex = False, lastKeys2 = []\<rparr>"

text \<open>The built-in operations of Go on a map that may be nil.\<close>

definition make_map :: "heap \<Rightarrow> nat \<times> heap" where
  "make_map h = (used h, h\<lparr>cells := (cells h)(used h := Map.empty), used := used h + 1\<rparr>)"

definition index_map :: "nat option \<Rightarrow> heap \<Rightarrow> string \<Rightarrow> Item option" where
  "index_map m h key = (case m of None \<Rightarrow> None | Some r \<Rightarrow> cells h r key)"

definition len_map :: "nat option \<Rightarrow> heap \<Rightarrow> nat" where
  "len_map m h = (case m of None \<Rightarrow> 0 | Some r \<Rightarrow> card (dom (cells h r)))"

definition delete_map :: "nat option \<Rightarrow> string \<Rightarrow> heap \<Rightarrow> heap" where
  "delete_map m key h =
     (case m of None \<Rightarrow> h | Some r \<Rightarrow> h\<lparr>cells := (cells h)(r := (cells h r)(key := None))\<rparr>)"

definition assign_map :: "nat option \<Rightarrow> string \<Rightarrow> Item \<Rightarrow> heap \<Rightarrow> failure + heap" where
  "assign_map m key item h =
     (case m of
        None \<Rightarrow> Inl NilMapWrite
      | Some r \<Rightarrow> Inr (h\<lparr>cells := (cells h)(r := (cells h r)(key \<mapsto> item))\<rparr>))"

subsection \<open>Second implementation: the recency stack\<close>

definition push2 :: "Store2 \<Rightarrow> string \<Rightarrow> failure + unit" where
  "push2 s v =
     (if stackMutex s then Inl Deadlock
      else
        let s = s\<lparr>stackMutex := True\<rparr>;
            s = s\<lparr>lastKeys2 := lastKeys2 s @ [v]\<rparr>;
            s = s\<lparr>stackMutex := False\<rparr>
        in Inr ())"

definition pop2 :: "Store2 \<Rightarrow> failure + unit" where
  "pop2 s =
     (if length (lastKeys2 s) = 0 then Inr ()
      else if stackMutex s then Inl Deadlock
      else
        let s = s\<lparr>stackMutex := True\<rparr>;
            s = s\<lparr>lastKeys2 := take (length (lastKeys2 s) - 1) (lastKeys2 s)\<rparr>;
            s = s\<lparr>stackMutex := False\<rparr>
        in Inr ())"

definition top2 :: "Store2 \<Rightarrow> heap \<Rightarrow> failure + string" where
  "top2 s h =
     (if length (lastKeys2 s) = 0 then Inr ''''
      else if stackMutex s then Inl Deadlock
      else
        let i = int (len_map (data2 s) h) - 1
        in if 0 \<le> i \<and> i < int (length (lastKeys2 s)) then Inr (lastKeys2 s ! nat i)
           else Inl IndexOutOfRange)"

subsection \<open>Second implementation: the table\<close>

text \<open>\<open>ttl\<close> counts seconds here; a second is \<open>1000000000\<close> nanoseconds.\<close>

definition Set2 :: "Store2 \<Rightarrow> string \<Rightarrow> string \<Rightarrow> int \<Rightarrow> int \<Rightarrow> heap \<Rightarrow> failure + heap" where
  "Set2 s key v ttl now h =
     (let expires = (if ttl > 0 then now + ttl * 1000000000 else 0)
      in case assign_map (data2 s) key \<lparr>Value = v, ExpiresAt = expires, Views = 0\<rparr> h of
           Inl e \<Rightarrow> Inl e
         | Inr h1 \<Rightarrow> (case push2 s key of Inl e \<Rightarrow> Inl e | Inr _ \<Rightarrow> Inr h1))"

definition Delete2 :: "Store2 \<Rightarrow> string \<Rightarrow> heap \<Rightarrow> heap" where
  "Delete2 s key h = delete_map (data2 s) key h"

definition RetrieveLastKey2 :: "Store2 \<Rightarrow> heap \<Rightarrow> failure + (string \<times> heap)" where
  "RetrieveLastKey2 s h =
     (case top2 s h of
        Inl e \<Rightarrow> Inl e
      | Inr k \<Rightarrow> (case pop2 s of Inl e \<Rightarrow> Inl e | Inr _ \<Rightarrow> Inr (k, Delete2 s k h)))"

definition Size2 :: "Store2 \<Rightarrow> heap \<Rightarrow> failure + nat" where
  "Size2 s h =
     (if mu s then Inl Deadlock
      else
        let s = s\<lparr>mu := True\<rparr>;
            l = len_map (data2 s) h
        in Inr l)"

text \<open>
  \<open>Get\<close> locks \<open>s.mu\<close> and calls \<open>s.Size()\<close>, whose receiver is a copy of \<open>s\<close>
  with the mutex in the state it has at the call.
\<close>

definition Get2 :: "Store2 \<Rightarrow> string \<Rightarrow> int \<Rightarrow> heap \<Rightarrow> failure + (string \<times> bool)" where
  "Get2 s key now h =
     (if mu s then Inl Deadlock
      else
        let s = s\<lparr>mu := True\<rparr>
        in case Size2 s h of
             Inl e \<Rightarrow> Inl e
           | Inr n \<Rightarrow>
               if n = 0 then Inr ('''', False)
               else
                 (case index_map (data2 s) h key of
                    None \<Rightarrow> Inr ('''', False)
                  | Some item \<Rightarrow>
                      if ExpiresAt item \<noteq> 0 \<and> ExpiresAt item < now then Inr ('''', False)
                      else
                        let item = item\<lparr>Views := Views item + 1\<rparr>
                        in Inr (Value item, True)))"

definition GetViews2 :: "Store2 \<Rightarrow> string \<Rightarrow> heap \<Rightarrow> 64 word" where
  "GetViews2 s key h =
     (case index_map (data2 s) h key of None \<Rightarrow> 0 | Some item \<Rightarrow> Views item)"

definition FullList2 :: "Store2 \<Rightarrow> nat option" where
  "FullList2 s = data2 s"

text \<open>
  One round of the loop of the second \<open>Cleanup\<close>, after the sleep. The range visits
  the keys in some order and reads the clock at each; a visit is the key and that
  reading.
\<close>

definition Cleanup2_round :: "Store2 \<Rightarrow> (string \<times> int) list \<Rightarrow> heap \<Rightarrow> heap" where
  "Cleanup2_round s visits h =
     fold (\<lambda>(k, now) h.
             case index_map (data2 s) h k of
               None \<Rightarrow> h
             | Some item \<Rightarrow>
                 if ExpiresAt item \<noteq> 0 \<and> now < ExpiresAt item then delete_map (data2 s) k h
                 else h)
          visits h"

definition Reset2 :: "Store2 \<Rightarrow> heap \<Rightarrow> heap" where
  "Reset2 s h = (let (r, h1) = make_map h; s = s\<lparr>data2 := Some r\<rparr> in h1)"

subsection \<open>Runs of calls used to state the properties\<close>

text \<open>
  \<open>gets_ok key cs s\<close>: in the run \<open>cs\<close> from \<open>s\<close>, every \<open>Get\<close> of \<open>key\<close>
  finds it, no call sets or deletes \<open>key\<close>, and every sweep comes while the entry of
  \<open>key\<close> has not expired. Calls on other keys are free.
\<close>

fun gets_ok :: "string \<Rightarrow> call list \<Rightarrow> Store \<Rightarrow> bool" where
  "gets_ok key [] s = True"
| "gets_ok key (c # cs) s =
     ((case c of
         CGet k t \<Rightarrow> k \<noteq> key \<or> snd (fst (Get s k t))
       | CSet k v ttl t \<Rightarrow> k \<noteq> key
       | CDelete k \<Rightarrow> k \<noteq> key
       | CTick t ks \<Rightarrow>
           (case data s key of
              None \<Rightarrow> True
            | Some item \<Rightarrow> ExpiresAt item = 0 \<or> t \<le> ExpiresAt item)
       | _ \<Rightarrow> False)
      \<and> gets_ok key cs (step c s))"

definition gets_of :: "string \<Rightarrow> call list \<Rightarrow> nat" where
  "gets_of key cs = length (filter (\<lambda>c. case c of CGet k t \<Rightarrow> k = key | _ \<Rightarrow> False) cs)"

text \<open>The last 30 elements of a list, oldest first.\<close>

definition last30 :: "'a list \<Rightarrow> 'a list" where
  "last30 xs = drop (length xs - 30) xs"

text \<open>A run of \<open>Set\<close> calls on the second implementation; it stops at the first failure.\<close>

fun Sets2 :: "Store2 \<Rightarrow> (string \<times> string \<times> int \<times> int) list \<Rightarrow> heap \<Rightarrow> failure + heap" where
  "Sets2 s [] h = Inr h"
| "Sets2 s ((key, v, ttl, now) # rest) h =
     (case Set2 s key v ttl now h of Inl e \<Rightarrow> Inl e | Inr h1 \<Rightarrow> Sets2 s rest h1)"

text \<open>The clock readings of the sweeps that \<open>Cleanup\<close> runs on a list of events.\<close>

fun tick_times :: "event list \<Rightarrow> int list" where
  "tick_times [] = []"
| "tick_times (Done # es) = []"
| "tick_times (Tick now ks # es) = now # tick_times es"

text \<open>
  \<open>NewStore\<close> of the second implementation leaves \<open>data\<close> nil, and no method can
  allocate it for the caller. A store with a map is a \<open>Store\<close> literal built inside
  the package: \<open>store2 ks\<close> has the stack \<open>ks\<close> and the map object at address 0,
  and \<open>heap_of m\<close> is the heap in which that object holds \<open>m\<close>. \<open>entry v e\<close> is an
  item with value \<open>v\<close>, expiry \<open>e\<close> and no views.
\<close>

definition store2 :: "string list \<Rightarrow> Store2" where
  "store2 ks = \<lparr>mu = False, data2 = Some 0, stackMutex = False, lastKeys2 = ks\<rparr>"

definition heap_of :: "(string \<rightharpoonup> Item) \<Rightarrow> heap" where
  "heap_of m = \<lparr>cells = (\<lambda>r. Map.empty)(0 := m), used = 1\<rparr>"

definition entry :: "string \<Rightarrow> int \<Rightarrow> Item" where
  "entry v e = \<lparr>Value = v, ExpiresAt = e, Views = 0\<rparr>"

text \<open>The plain copy of an item that \<open>FullList\<close> stores in the map it returns.\<close>

definition dto :: "Item \<Rightarrow> ItemDTO" where
  "dto val = \<lparr>dtoValue = Value val, dtoExpiresAt = ExpiresAt val, dtoViews = Views val\<rparr>"

section \<open>Properties of the first implementation\<close>

subsection \<open>What each method does to the table and to the stack\<close>

lemma lastKeys_push:
  "lastKeys (push s v) =
     (if length (lastKeys s) < 30 then lastKeys s @ [v] else drop 1 (lastKeys s @ [v]))"
  by (simp add: push_def Let_def)

lemma data_push: "data (push s v) = data s"
  by (simp add: push_def Let_def)

lemma data_Set:
  "data (Set s key v ttl now) =
     (data s)(key \<mapsto> \<lparr>Value = v, ExpiresAt = (if ttl > 0 then now + ttl else 0), Views = 0\<rparr>)"
  by (simp add: Set_def Let_def data_push)

lemma fold_delete_lookup:
  "fold (\<lambda>v m. m(v := None)) xs m k = (if k \<in> set xs then None else m k)"
  by (induction xs arbitrary: m) auto

text \<open>
  A sweep removes the keys it visits whose expiry is set and lies before its clock
  reading, and nothing else.
\<close>

lemma data_Cleanup_tick:
  "data (Cleanup_tick s now ks) k =
     (if k \<in> set ks \<and> (case data s k of None \<Rightarrow> False
                                     | Some item \<Rightarrow> ExpiresAt item \<noteq> 0 \<and> ExpiresAt item < now)
      then None else data s k)"
proof -
  have mem: "k \<in> set (expiredKeys s now ks) \<longleftrightarrow>
      k \<in> set ks \<and> (case data s k of None \<Rightarrow> False
                                     | Some item \<Rightarrow> ExpiresAt item \<noteq> 0 \<and> ExpiresAt item < now)"
    by (simp add: expiredKeys_def)
  show ?thesis
  proof (cases "expiredKeys s now ks = []")
    case True
    with mem show ?thesis by (auto simp: Cleanup_tick_def Let_def)
  next
    case False
    with mem show ?thesis by (simp add: Cleanup_tick_def Let_def fold_delete_lookup)
  qed
qed

lemma lastKeys_Cleanup_tick: "lastKeys (Cleanup_tick s now ks) = lastKeys s"
  by (simp add: Cleanup_tick_def Let_def)

lemma Cleanup_keeps:
  "data s key = Some item \<Longrightarrow>
   ExpiresAt item = 0 \<or> (\<forall>t' \<in> set (tick_times es). t' \<le> ExpiresAt item) \<Longrightarrow>
   data (Cleanup s es) key = Some item"
proof (induction s es rule: Cleanup.induct)
  case (3 s now ks es)
  have "data (Cleanup_tick s now ks) key = Some item"
    using "3.prems" by (auto simp: data_Cleanup_tick)
  moreover have "ExpiresAt item = 0 \<or> (\<forall>t' \<in> set (tick_times es). t' \<le> ExpiresAt item)"
    using "3.prems"(2) by auto
  ultimately show ?case using "3.IH" by simp
qed simp_all

lemma Cleanup_only_deletes:
  "data (Cleanup s es) key = None \<or> data (Cleanup s es) key = data s key"
proof (induction s es rule: Cleanup.induct)
  case (3 s now ks es)
  then show ?case by (auto simp: data_Cleanup_tick)
qed simp_all

subsection \<open>Expiry on read\<close>

text \<open>
  C1, as the spec states it, makes \<open>Get\<close> report "not found" from the expiry instant
  \<open>now + d\<close> on. \<open>Get\<close> tests \<open>time.Now().After(item.ExpiresAt)\<close>, which is false
  at the instant itself: an entry set at time 100 with a ttl of 10 is still returned by a
  \<open>Get\<close> at time 110.
\<close>

theorem Get_at_expiry_instant:
  "fst (Get (Set NewStore ''k'' ''v'' 10 100) ''k'' 110) = (''v'', True)"
  by (simp add: Get_def Set_def NewStore_def push_def)

text \<open>
  C1, amended: for an entry stored by \<open>Set(key, value, d)\<close> with \<open>d > 0\<close> at time
  \<open>now\<close>, \<open>Get(key)\<close> at time \<open>t\<close> returns \<open>(value, true)\<close> when \<open>t\<close> is at or
  before \<open>now + d\<close> and \<open>("", false)\<close> when \<open>t\<close> is after it, whatever sweeps have
  run in between (their clock readings are not later than \<open>t\<close>); and \<open>Get\<close> never
  returns a value for an entry whose non-zero \<open>ExpiresAt\<close> is strictly in the past.
  The clock reading \<open>now\<close> is not before Go's zero time.
\<close>

theorem Get_expiry:
  assumes d: "0 < d" and now: "0 \<le> now"
    and ticks: "\<forall>t' \<in> set (tick_times es). t' \<le> t"
  shows "fst (Get (Cleanup (Set s key v d now) es) key t)
           = (if t \<le> now + d then (v, True) else ('''', False))
         \<and> (\<forall>s' item. data s' key = Some item \<and> ExpiresAt item \<noteq> 0 \<and> ExpiresAt item < t
               \<longrightarrow> fst (Get s' key t) = ('''', False))"
proof -
  let ?item = "\<lparr>Value = v, ExpiresAt = now + d, Views = 0\<rparr>"
  let ?s0 = "Set s key v d now"
  have s0: "data ?s0 key = Some ?item" using d by (simp add: data_Set)
  have first: "fst (Get (Cleanup ?s0 es) key t) = (if t \<le> now + d then (v, True) else ('''', False))"
  proof (cases "t \<le> now + d")
    case True
    with ticks have "\<forall>t' \<in> set (tick_times es). t' \<le> ExpiresAt ?item" by auto
    with s0 have "data (Cleanup ?s0 es) key = Some ?item" by (intro Cleanup_keeps) auto
    with True show ?thesis by (simp add: Get_def)
  next
    case False
    from Cleanup_only_deletes [of ?s0 es key] s0
    have "data (Cleanup ?s0 es) key = None \<or> data (Cleanup ?s0 es) key = Some ?item" by simp
    with False d now show ?thesis by (auto simp: Get_def)
  qed
  have "\<forall>s' item. data s' key = Some item \<and> ExpiresAt item \<noteq> 0 \<and> ExpiresAt item < t
               \<longrightarrow> fst (Get s' key t) = ('''', False)"
    by (simp add: Get_def)
  with first show ?thesis by simp
qed

theorem Get_expiry_witness:
  "(0::int) < 10 \<and> (0::int) \<le> 100
   \<and> list_all (\<lambda>t'. t' \<le> 110) (tick_times [Tick 105 [''k'']])
   \<and> fst (Get (Cleanup (Set NewStore ''k'' ''v'' 10 100) [Tick 105 [''k'']]) ''k'' 111) = ('''', False)
   \<and> fst (Get (Cleanup (Set NewStore ''k'' ''v'' 10 100) [Tick 105 [''k'']]) ''k'' 110) = (''v'', True)"
  using Get_expiry [of 10 100 "[Tick 105 [''k'']]" 111 NewStore "''k''" "''v''"]
    Get_expiry [of 10 100 "[Tick 105 [''k'']]" 110 NewStore "''k''" "''v''"]
  by simp

subsection \<open>View counting\<close>

lemma data_Get_other: "k \<noteq> key \<Longrightarrow> data (snd (Get s k t)) key = data s key"
  by (simp add: Get_def split: option.splits)

lemma Get_found:
  "data s key = Some item \<Longrightarrow> snd (fst (Get s key t)) \<Longrightarrow>
   fst (Get s key t) = (Value item, True) \<and>
   data (snd (Get s key t)) key = Some (item\<lparr>Views := Views item + 1\<rparr>)"
  by (simp add: Get_def split: if_splits)

text \<open>
  Along a run in which the entry of \<open>key\<close> is only read, the entry keeps its value
  and expiry and its counter grows by one for every \<open>Get\<close> of \<open>key\<close>.
\<close>

lemma gets_ok_views:
  "data s key = Some item \<Longrightarrow> gets_ok key cs s \<Longrightarrow>
   data (run cs s) key = Some (item\<lparr>Views := Views item + of_nat (gets_of key cs)\<rparr>)"
proof (induction cs arbitrary: s item)
  case Nil
  then show ?case by (simp add: run_def gets_of_def)
next
  case (Cons c cs)
  have ok: "gets_ok key cs (step c s)" using Cons.prems(2) by simp
  show ?case
  proof (cases "\<exists>t. c = CGet key t")
    case True
    then obtain t where c: "c = CGet key t" by blast
    with Cons.prems have "snd (fst (Get s key t))" by simp
    from Get_found [OF Cons.prems(1) this]
    have "data (step c s) key = Some (item\<lparr>Views := Views item + 1\<rparr>)" by (simp add: c)
    from Cons.IH [OF this ok]
    show ?thesis by (simp add: c run_def gets_of_def add.assoc add.commute)
  next
    case False
    have same: "data (step c s) key = Some item"
    proof (cases c)
      case (CSet k v ttl t)
      with Cons.prems show ?thesis by (auto simp: data_Set)
    next
      case (CGet k t)
      with False have "k \<noteq> key" by simp
      with CGet Cons.prems(1) show ?thesis by (simp add: data_Get_other)
    next
      case (CDelete k)
      with Cons.prems show ?thesis by (auto simp: Delete_def)
    next
      case (CTick t ks)
      with Cons.prems show ?thesis by (auto simp: data_Cleanup_tick)
    qed (use Cons.prems(2) in simp_all)
    have cnt: "gets_of key (c # cs) = gets_of key cs"
      using False by (cases c) (auto simp: gets_of_def)
    from Cons.IH [OF same ok] show ?thesis by (simp add: cnt run_def)
  qed
qed

text \<open>
  C3: after \<open>Set(key, ...)\<close>, along any run in which every \<open>Get\<close> of \<open>key\<close>
  succeeds and nothing sets or deletes \<open>key\<close> (calls on other keys and sweeps that
  come before the entry expires may be interleaved), \<open>GetViews(key)\<close> returns the
  number \<open>k\<close> of those \<open>Get\<close> calls: as the \<open>uint64\<close> it is, and so exactly \<open>k\<close>
  for every \<open>k\<close> below \<open>2 ^ 64\<close>. A \<open>Set\<close> of the same key then makes
  \<open>GetViews\<close> return 0.
\<close>

theorem views_count_gets:
  assumes "gets_ok key cs (Set s key v ttl now)"
  shows "GetViews (run cs (Set s key v ttl now)) key = of_nat (gets_of key cs)
       \<and> (gets_of key cs < 2 ^ 64 \<longrightarrow>
            unat (GetViews (run cs (Set s key v ttl now)) key) = gets_of key cs)
       \<and> GetViews (Set (run cs (Set s key v ttl now)) key v' ttl' now') key = 0"
proof -
  let ?s0 = "Set s key v ttl now"
  have "data ?s0 key = Some \<lparr>Value = v, ExpiresAt = (if ttl > 0 then now + ttl else 0), Views = 0\<rparr>"
    by (simp add: data_Set)
  from gets_ok_views [OF this assms]
  have v: "GetViews (run cs ?s0) key = of_nat (gets_of key cs)"
    by (simp add: GetViews_def)
  have "unat (GetViews (run cs ?s0) key) = gets_of key cs" if "gets_of key cs < 2 ^ 64"
    using that by (simp add: v unat_of_nat take_bit_nat_eq_self)
  moreover have "GetViews (Set (run cs ?s0) key v' ttl' now') key = 0"
    by (simp add: GetViews_def data_Set)
  ultimately show ?thesis using v by simp
qed

theorem views_count_gets_witness:
  "gets_ok ''a'' [CGet ''a'' 101, CSet ''b'' ''2'' 0 102, CTick 103 [''a'', ''b''], CGet ''a'' 104,
      CGet ''b'' 105, CGet ''a'' 110] (Set NewStore ''a'' ''1'' 10 100)
   \<and> GetViews (run [CGet ''a'' 101, CSet ''b'' ''2'' 0 102, CTick 103 [''a'', ''b''], CGet ''a'' 104,
      CGet ''b'' 105, CGet ''a'' 110] (Set NewStore ''a'' ''1'' 10 100)) ''a'' = 3
   \<and> GetViews (Set (run [CGet ''a'' 101, CSet ''b'' ''2'' 0 102, CTick 103 [''a'', ''b''], CGet ''a'' 104,
      CGet ''b'' 105, CGet ''a'' 110] (Set NewStore ''a'' ''1'' 10 100)) ''a'' ''3'' 0 111) ''a'' = 0"
proof -
  have ok: "gets_ok ''a'' [CGet ''a'' 101, CSet ''b'' ''2'' 0 102, CTick 103 [''a'', ''b''], CGet ''a'' 104,
      CGet ''b'' 105, CGet ''a'' 110] (Set NewStore ''a'' ''1'' 10 100)"
    by (simp add: Get_def Set_def NewStore_def push_def Cleanup_tick_def expiredKeys_def)
  from views_count_gets [OF ok, of "''3''" 0 111] ok
  show ?thesis by (simp add: gets_of_def)
qed

text \<open>
  C9: \<open>GetViews\<close> does not look at the expiry. For a key whose entry is still in the
  table with a non-zero \<open>ExpiresAt\<close> in the past, \<open>GetViews\<close> returns the stored
  counter, while \<open>Get\<close> of the same key at that time reports "not found".
\<close>

theorem GetViews_ignores_expiry:
  "data s key = Some item \<Longrightarrow> ExpiresAt item \<noteq> 0 \<Longrightarrow> ExpiresAt item < now \<Longrightarrow>
   GetViews s key = Views item \<and> fst (Get s key now) = ('''', False)"
  by (simp add: GetViews_def Get_def)

theorem GetViews_ignores_expiry_witness:
  "data (snd (Get (Set NewStore ''a'' ''1'' 10 100) ''a'' 105)) ''a''
     = Some \<lparr>Value = ''1'', ExpiresAt = 110, Views = 1\<rparr>
   \<and> GetViews (snd (Get (Set NewStore ''a'' ''1'' 10 100) ''a'' 105)) ''a'' = 1
   \<and> fst (Get (snd (Get (Set NewStore ''a'' ''1'' 10 100) ''a'' 105)) ''a'' 111) = ('''', False)"
  using GetViews_ignores_expiry [of "snd (Get (Set NewStore ''a'' ''1'' 10 100) ''a'' 105)" "''a''"
      "\<lparr>Value = ''1'', ExpiresAt = 110, Views = 1\<rparr>" 111]
  by (simp add: Get_def Set_def NewStore_def push_def)

subsection \<open>The recency stack\<close>

lemma push_last30:
  "length (lastKeys s) \<le> 30 \<Longrightarrow> lastKeys (push s v) = last30 (lastKeys s @ [v])"
  by (auto simp: lastKeys_push last30_def)

lemma length_last30: "length (last30 xs) \<le> 30"
  by (simp add: last30_def)

lemma last30_append: "last30 (last30 xs @ ys) = last30 (xs @ ys)"
proof (cases "length xs \<le> 30")
  case True
  then show ?thesis by (simp add: last30_def)
next
  case False
  then have "length xs - (length xs - 30) = 30"
    and "length xs + length ys - 30 = length ys + (length xs - 30)" by arith+
  then show ?thesis by (simp add: last30_def)
qed

lemma lastKeys_Set:
  "lastKeys (Set s key v ttl now) =
     (if length (lastKeys s) < 30 then lastKeys s @ [key] else drop 1 (lastKeys s @ [key]))"
  by (simp add: Set_def lastKeys_push Let_def)

lemma lastKeys_Get: "lastKeys (snd (Get s key now)) = lastKeys s"
  by (simp add: Get_def split: option.splits)

text \<open>A run of \<open>Set\<close> calls leaves the last 30 of the keys pushed so far.\<close>

lemma lastKeys_run_CSet:
  "length (lastKeys s) \<le> 30 \<Longrightarrow>
   lastKeys (run (map (\<lambda>(key, v, ttl, now). CSet key v ttl now) args) s)
     = last30 (lastKeys s @ map fst args)"
proof (induction args arbitrary: s)
  case Nil
  then show ?case by (simp add: run_def last30_def)
next
  case (Cons a args)
  obtain key v ttl now where a: "a = (key, v, ttl, now)" by (cases a) auto
  let ?s1 = "Set s key v ttl now"
  have l1: "lastKeys ?s1 = last30 (lastKeys s @ [key])"
    using Cons.prems by (simp add: Set_def push_last30 Let_def)
  then have "length (lastKeys ?s1) \<le> 30" by (simp add: length_last30)
  from Cons.IH [OF this] have
    "lastKeys (run (map (\<lambda>(key, v, ttl, now). CSet key v ttl now) args) ?s1)
       = last30 (last30 (lastKeys s @ [key]) @ map fst args)" by (simp add: l1)
  then show ?case by (simp add: a run_def last30_append)
qed

text \<open>
  In the first implementation every call keeps the stack within 30 keys, and a run of
  more than 30 \<open>Set\<close> calls leaves exactly the keys of the last 30 of them, in the
  order of the calls.
\<close>

lemma step_keeps_bound:
  "length (lastKeys s) \<le> 30 \<Longrightarrow> length (lastKeys (step c s)) \<le> 30"
  by (cases c)
    (auto simp: Set_def lastKeys_push lastKeys_Get Delete_def RetrieveLastKey_def
      Reset_def lastKeys_Cleanup_tick pop_def Let_def)

lemma run_keeps_bound:
  "length (lastKeys s) \<le> 30 \<Longrightarrow> length (lastKeys (run cs s)) \<le> 30"
  unfolding run_def by (induction cs arbitrary: s) (auto simp: step_keeps_bound)

lemma Sets_keep_last_30:
  assumes "length (lastKeys s) \<le> 30" and "30 < length args"
  shows "lastKeys (run (map (\<lambda>(key, v, ttl, now). CSet key v ttl now) args) s)
           = drop (length args - 30) (map fst args)
         \<and> length (lastKeys (run (map (\<lambda>(key, v, ttl, now). CSet key v ttl now) args) s)) = 30"
proof -
  have "length (lastKeys s) + length args - 30 = length (lastKeys s) + (length args - 30)"
    using assms(2) by arith
  then have "last30 (lastKeys s @ map fst args) = drop (length args - 30) (map fst args)"
    by (simp add: last30_def)
  with lastKeys_run_CSet [OF assms(1), of args] assms(2) show ?thesis by simp
qed

text \<open>
  C10: \<open>Set\<close> pushes its key whatever the table holds, also when the key is already
  there, so the stack can hold a key more than once and the bound of 30 counts the
  copies: 31 calls of \<open>Set\<close> on one key, from a stack within the bound, leave 30
  copies of that key.
\<close>

theorem Set_pushes_duplicates:
  "lastKeys (Set s key v ttl now) =
     (if length (lastKeys s) < 30 then lastKeys s @ [key] else drop 1 (lastKeys s @ [key]))
   \<and> (length (lastKeys s) \<le> 30 \<and> length args = 31 \<longrightarrow>
        lastKeys (run (map (\<lambda>(v, ttl, now). CSet key v ttl now) args) s) = replicate 30 key)"
proof -
  have "lastKeys (run (map (\<lambda>(v, ttl, now). CSet key v ttl now) args) s) = replicate 30 key"
    if len: "length (lastKeys s) \<le> 30" and n: "length args = 31"
  proof -
    let ?args = "map (\<lambda>a. (key, a)) args"
    have eq: "map (\<lambda>(v, ttl, now). CSet key v ttl now) args
        = map (\<lambda>(key, v, ttl, now). CSet key v ttl now) ?args"
      by (simp add: case_prod_beta)
    have keys: "map fst ?args = replicate 31 key"
      using n by (simp add: comp_def map_replicate_const)
    have "lastKeys (run (map (\<lambda>(v, ttl, now). CSet key v ttl now) args) s)
        = last30 (lastKeys s @ replicate 31 key)"
      unfolding eq using lastKeys_run_CSet [OF len, of ?args] keys by simp
    also have "\<dots> = replicate 30 key"
    proof -
      have "length (lastKeys s) + 31 - 30 = length (lastKeys s) + 1" by simp
      then show ?thesis by (simp add: last30_def)
    qed
    finally show ?thesis .
  qed
  then show ?thesis by (simp add: lastKeys_Set)
qed

theorem Set_pushes_duplicates_witness:
  "lastKeys (Set (Set NewStore ''a'' ''1'' 0 100) ''a'' ''2'' 0 101) = [''a'', ''a'']
   \<and> lastKeys (run (map (\<lambda>(v, ttl, now). CSet ''a'' v ttl now) (replicate 31 (''1'', 0, 100))) NewStore)
       = replicate 30 ''a''"
  using Set_pushes_duplicates [of "Set NewStore ''a'' ''1'' 0 100" "''a''" "''2''" 0 101 "[]"]
    Set_pushes_duplicates [of NewStore "''a''" "''1''" 0 100 "replicate 31 (''1'', 0, 100)"]
  by (simp add: Set_def NewStore_def push_def)

text \<open>
  \<open>RetrieveLastKey\<close> of the first implementation takes the newest key off the stack,
  deletes that key from the table and returns it; on an empty stack it returns the empty
  string and leaves the store as it is.
\<close>

lemma RetrieveLastKey_pops:
  "RetrieveLastKey s =
     (if lastKeys s = [] then ('''', s)
      else (last (lastKeys s),
            s\<lparr>lastKeys := butlast (lastKeys s), data := (data s)(last (lastKeys s) := None)\<rparr>))"
  by (simp add: RetrieveLastKey_def Let_def last_conv_nth butlast_conv_take)

text \<open>
  \<open>top\<close> of the first implementation returns the newest key, or the empty string on
  an empty stack, and the index it reads is below the length of the stack.
\<close>

lemma top_key_newest:
  "top_key s = (if lastKeys s = [] then '''' else last (lastKeys s))
   \<and> (lastKeys s \<noteq> [] \<longrightarrow> length (lastKeys s) - 1 < length (lastKeys s))"
  by (auto simp: top_key_def last_conv_nth)

subsection \<open>The sweeper, \<open>Reset\<close> and \<open>FullList\<close>\<close>

text \<open>
  A sweep of the first implementation changes the entry of a key only by removing it,
  and only when the entry's expiry is set and lies before the clock reading of the sweep.
\<close>

lemma Cleanup_tick_only_expired:
  "data s k = Some item \<Longrightarrow> data (Cleanup_tick s now ks) k \<noteq> Some item \<Longrightarrow>
   k \<in> set ks \<and> ExpiresAt item \<noteq> 0 \<and> ExpiresAt item < now
   \<and> data (Cleanup_tick s now ks) k = None"
  by (auto simp: data_Cleanup_tick split: if_splits)

lemma Cleanup_tick_keeps_unexpired:
  "data s k = Some item \<Longrightarrow> ExpiresAt item = 0 \<or> now \<le> ExpiresAt item \<Longrightarrow>
   data (Cleanup_tick s now ks) k = Some item"
  by (auto simp: data_Cleanup_tick)

text \<open>\<open>Reset\<close> of the first implementation empties the table and the stack.\<close>

lemma FullList_empty: "data s = Map.empty \<Longrightarrow> FullList s ks = Map.empty"
  unfolding FullList_def by (induction ks) simp_all

lemma Reset_clears:
  "Size (Reset s) = 0 \<and> FullList (Reset s) ks = Map.empty
   \<and> RetrieveLastKey (Reset s) = ('''', Reset s) \<and> Reset s = NewStore"
  by (simp add: Size_def Reset_def FullList_empty RetrieveLastKey_def NewStore_def)

text \<open>
  \<open>FullList\<close> of the first implementation builds a new map of plain copies: when the
  range visits the keys of the table, the result holds \<open>dto\<close> of every entry under its
  key and nothing else. The result is a value; no later call on the store reaches it.
\<close>

lemma FullList_fold:
  "fold (\<lambda>key newData.
             case data s key of
               None \<Rightarrow> newData
             | Some val \<Rightarrow>
                 newData(key \<mapsto>
                   \<lparr>dtoValue = Value val, dtoExpiresAt = ExpiresAt val, dtoViews = Views val\<rparr>))
          ks m k = (if k \<in> set ks \<and> data s k \<noteq> None then map_option dto (data s k) else m k)"
  by (induction ks arbitrary: m) (auto simp: dto_def split: option.splits)

lemma FullList_snapshot:
  "FullList s ks k = (if k \<in> set ks then map_option dto (data s k) else None)"
  by (auto simp: FullList_def FullList_fold)

lemma FullList_snapshot_all:
  "set ks = dom (data s) \<Longrightarrow> FullList s ks = map_option dto \<circ> data s"
  by (rule ext) (auto simp: FullList_snapshot)

section \<open>Properties of the second implementation\<close>

text \<open>
  \<open>Get\<close> of the second implementation never returns: it locks \<open>s.mu\<close> and calls
  \<open>s.Size()\<close>, which locks the copy of that locked mutex.
\<close>

lemma Get2_deadlocks: "Get2 s key now h = Inl Deadlock"
  by (simp add: Get2_def Size2_def Let_def)

text \<open>
  A run of \<open>Set\<close> calls goes through when the receiver has a map and a free stack
  mutex, and panics at its first call on the store that \<open>NewStore\<close> returns.
\<close>

lemma Sets2_ok:
  "data2 s = Some r \<Longrightarrow> \<not> stackMutex s \<Longrightarrow> \<not> isl (Sets2 s args h)"
proof (induction args arbitrary: h)
  case Nil
  then show ?case by simp
next
  case (Cons a args)
  obtain key v ttl now where a: "a = (key, v, ttl, now)" by (cases a) auto
  show ?case using Cons by (simp add: a Set2_def assign_map_def push2_def Let_def)
qed

lemma Sets2_nil: "args \<noteq> [] \<Longrightarrow> data2 s = None \<Longrightarrow> Sets2 s args h = Inl NilMapWrite"
  by (cases args) (auto simp: Set2_def assign_map_def)

text \<open>
  C2 says that a sweep never deletes an entry that has not expired: it removes a key
  only when the key's non-zero \<open>ExpiresAt\<close> is before the current time. The second
  \<open>Cleanup\<close> tests \<open>time.Now().Before(item.ExpiresAt)\<close>. On a table that holds
  \<open>live\<close>, expiring at 200, and \<open>dead\<close>, expired at 50, a round at time 100 deletes
  \<open>live\<close> and keeps \<open>dead\<close>.
\<close>

theorem Cleanup2_deletes_unexpired:
  "Cleanup2_round (store2 []) [(''live'', 100), (''dead'', 100)]
      (heap_of [''live'' \<mapsto> entry ''1'' 200, ''dead'' \<mapsto> entry ''2'' 50])
   = heap_of [''dead'' \<mapsto> entry ''2'' 50]"
  by (simp add: Cleanup2_round_def store2_def heap_of_def entry_def index_map_def delete_map_def)

text \<open>
  C4 says that the stack holds at most 30 keys and, after more than 30 distinct keys
  have been set, exactly the 30 set last. The second \<open>push\<close> appends to the stack of
  its receiver, a copy of a copy of the caller's store, and drops nothing. After 31
  \<open>Set\<close> calls with distinct keys on a store with a map, all of which go through,
  \<open>top\<close> still finds the caller's stack empty; on the store that \<open>NewStore\<close>
  returns, the first \<open>Set\<close> panics on the nil map.
\<close>

theorem push2_never_reaches_the_stack:
  "\<not> isl (Sets2 (store2 []) (map (\<lambda>i. (replicate (Suc i) CHR ''k'', ''v'', 0, 100)) [0..<31])
            (heap_of Map.empty))
   \<and> top2 (store2 [])
        (projr (Sets2 (store2 []) (map (\<lambda>i. (replicate (Suc i) CHR ''k'', ''v'', 0, 100)) [0..<31])
            (heap_of Map.empty))) = Inr ''''
   \<and> Sets2 NewStore2 (map (\<lambda>i. (replicate (Suc i) CHR ''k'', ''v'', 0, 100)) [0..<31])
        \<lparr>cells = (\<lambda>r. Map.empty), used = 0\<rparr> = Inl NilMapWrite"
proof -
  have "\<not> isl (Sets2 (store2 []) (map (\<lambda>i. (replicate (Suc i) CHR ''k'', ''v'', 0, 100)) [0..<31])
            (heap_of Map.empty))"
    by (rule Sets2_ok [where r = 0]) (simp_all add: store2_def)
  moreover have "top2 (store2 []) h = Inr ''''" for h
    by (simp add: top2_def store2_def)
  moreover have "Sets2 NewStore2 (map (\<lambda>i. (replicate (Suc i) CHR ''k'', ''v'', 0, 100)) [0..<31])
        \<lparr>cells = (\<lambda>r. Map.empty), used = 0\<rparr> = Inl NilMapWrite"
    by (rule Sets2_nil) (simp_all add: NewStore2_def)
  ultimately show ?thesis by simp
qed

text \<open>
  C5 says that \<open>RetrieveLastKey\<close> takes the newest key off the stack, deletes that key
  from the table and returns it, and that on an empty stack it returns the empty string
  and changes nothing. The second \<open>RetrieveLastKey\<close> calls \<open>top\<close>, \<open>pop\<close> and
  \<open>Delete\<close> in turn. On an empty stack it goes on to delete the key \<open>""\<close>, so a table
  that holds an entry under the empty string loses it. On the stack \<open>[a, b]\<close> with
  the one entry \<open>b\<close> in the table, \<open>top\<close> reads index 0: the call returns \<open>a\<close>,
  not the newest key \<open>b\<close>, and \<open>b\<close> stays in the table.
\<close>

theorem RetrieveLastKey2_wrong_key:
  "RetrieveLastKey2 (store2 []) (heap_of ['''' \<mapsto> entry ''1'' 0]) = Inr ('''', heap_of Map.empty)
   \<and> RetrieveLastKey2 (store2 [''a'', ''b'']) (heap_of [''b'' \<mapsto> entry ''1'' 0])
       = Inr (''a'', heap_of [''b'' \<mapsto> entry ''1'' 0])"
  by (simp add: RetrieveLastKey2_def top2_def pop2_def Delete2_def delete_map_def store2_def
      heap_of_def len_map_def)

text \<open>
  C6 says that after \<open>Reset\<close> the table and the stack are empty: \<open>Size\<close> is 0,
  \<open>FullList\<close> is empty and \<open>RetrieveLastKey\<close> returns the empty string. The
  second \<open>Reset\<close> assigns a new map to the \<open>data\<close> field of its receiver, a copy,
  and does not touch the stack. After it, on a store with the stack \<open>[a]\<close> and the
  entry \<open>a\<close>, \<open>Size\<close> is still 1, \<open>RetrieveLastKey\<close> returns \<open>a\<close> and the
  map that \<open>FullList\<close> returns still holds \<open>a\<close>.
\<close>

theorem Reset2_clears_nothing:
  "Size2 (store2 [''a'']) (Reset2 (store2 [''a'']) (heap_of [''a'' \<mapsto> entry ''1'' 0])) = Inr 1
   \<and> map_sum id fst
        (RetrieveLastKey2 (store2 [''a'']) (Reset2 (store2 [''a'']) (heap_of [''a'' \<mapsto> entry ''1'' 0])))
       = Inr ''a''
   \<and> index_map (FullList2 (store2 [''a'']))
        (Reset2 (store2 [''a'']) (heap_of [''a'' \<mapsto> entry ''1'' 0])) ''a'' = Some (entry ''1'' 0)"
  by (simp add: Size2_def Reset2_def make_map_def store2_def heap_of_def len_map_def top2_def
      pop2_def RetrieveLastKey2_def FullList2_def index_map_def)

text \<open>
  C7 says that the map \<open>FullList\<close> returns is a copy that no later \<open>Set\<close>,
  \<open>Delete\<close>, \<open>Get\<close> or sweep on the store changes. The second \<open>FullList\<close>
  returns \<open>s.data\<close>, the map object of the store itself. A caller who received it
  while the table held only \<open>a\<close> finds \<open>b\<close> in it after \<open>Set("b", "2", 0)\<close>.
\<close>

theorem FullList2_is_the_live_map:
  "index_map (FullList2 (store2 [])) (heap_of [''a'' \<mapsto> entry ''1'' 0]) ''b'' = None
   \<and> Set2 (store2 []) ''b'' ''2'' 0 100 (heap_of [''a'' \<mapsto> entry ''1'' 0])
       = Inr (heap_of [''a'' \<mapsto> entry ''1'' 0, ''b'' \<mapsto> entry ''2'' 0])
   \<and> index_map (FullList2 (store2 []))
        (heap_of [''a'' \<mapsto> entry ''1'' 0, ''b'' \<mapsto> entry ''2'' 0]) ''b'' = Some (entry ''2'' 0)"
  by (simp add: Set2_def assign_map_def push2_def store2_def heap_of_def FullList2_def
      index_map_def entry_def)

text \<open>
  C8 says that \<open>top\<close> returns the newest key of the stack, the empty string on an
  empty stack, and reads an index computed from the length of the stack. The second
  \<open>top\<close> reads \<open>s.lastKeys[len(s.data)-1]\<close>. With the stack \<open>[a, b]\<close> and one
  entry in the table it returns \<open>a\<close>, not the newest key \<open>b\<close>; with the stack
  \<open>[a]\<close> it panics when the table is empty (index -1) and when the table holds two
  entries (index 1).
\<close>

theorem top2_indexes_by_table_size:
  "top2 (store2 [''a'', ''b'']) (heap_of [''b'' \<mapsto> entry ''1'' 0]) = Inr ''a''
   \<and> top2 (store2 [''a'']) (heap_of Map.empty) = Inl IndexOutOfRange
   \<and> top2 (store2 [''a'']) (heap_of [''a'' \<mapsto> entry ''1'' 0, ''b'' \<mapsto> entry ''2'' 0])
       = Inl IndexOutOfRange"
  by (simp add: top2_def store2_def heap_of_def len_map_def)

end
